theory Spec2Isabelle
  imports Main "HOL-Library.Word"
begin

unbundle bit_operations_syntax

section \<open>Engine types the module builds on\<close>

text \<open>
  NeoDataSync is an Unreal Engine module. Its record keys and values wrap the engine's
  \<open>FInstancedStruct\<close>: a pointer to the reflected struct type (\<open>UScriptStruct\<close>) and a
  block of memory holding one instance of it. The engine types are written down here as
  far as \<open>NeoReplicatedData.h\<close> and \<open>NeoReplicatedData.cpp\<close> use them.

  A struct type is described by its name, its size in bytes (\<open>GetStructureSize\<close>) and
  the offset and size of each reflected property. Bytes of the instance that no
  property covers are padding. Properties are plain data (integers, enums, booleans).
\<close>

type_synonym uint8 = "8 word"
type_synonym uint32 = "32 word"
type_synonym int32 = "32 word"

definition INDEX_NONE :: int32 where
  "INDEX_NONE = - 1"

record UScriptStruct =
  StructName :: string
  StructureSize :: nat
  Properties :: "(nat \<times> nat) list"

record FInstancedStruct =
  ScriptStruct :: "UScriptStruct option"
  Memory :: "uint8 list"

definition IsValid :: "FInstancedStruct \<Rightarrow> bool" where
  "IsValid s = (ScriptStruct s \<noteq> None)"

text \<open>
  \<open>UScriptStruct::CompareScriptStruct\<close> walks the reflected properties and compares
  each one in the two instances; \<open>FInstancedStruct::operator==\<close> compares the type
  pointers first and then calls it. Two empty instanced structs are equal. The comment
  in \<open>FRecordKey::operator==\<close> speaks of type and binary equality; what the
  engine compares is the type and the properties, so padding bytes do not count.
\<close>

definition PropertyBytes :: "nat \<times> nat \<Rightarrow> uint8 list \<Rightarrow> uint8 list" where
  "PropertyBytes p mem = take (snd p) (drop (fst p) mem)"

definition CompareScriptStruct :: "UScriptStruct \<Rightarrow> uint8 list \<Rightarrow> uint8 list \<Rightarrow> bool" where
  "CompareScriptStruct S A B =
     (map (\<lambda>p. PropertyBytes p A) (Properties S) = map (\<lambda>p. PropertyBytes p B) (Properties S))"

definition FInstancedStruct_equals :: "FInstancedStruct \<Rightarrow> FInstancedStruct \<Rightarrow> bool" where
  "FInstancedStruct_equals a b =
     (if ScriptStruct a \<noteq> ScriptStruct b then False
      else case ScriptStruct a of
             None \<Rightarrow> True
           | Some S \<Rightarrow> CompareScriptStruct S (Memory a) (Memory b))"

text \<open>
  \<open>FCrc::MemCrc32\<close> is the reflected CRC-32 (polynomial \<open>0xEDB88320\<close>) of a byte
  range, started from the complement of the seed and complemented at the end. The
  engine reads eight table entries at a time; the table is the eight shift steps below.
\<close>

definition Crc32Shift :: "uint32 \<Rightarrow> uint32" where
  "Crc32Shift c = (if bit c 0 then drop_bit 1 c XOR 0xEDB88320 else drop_bit 1 c)"

definition Crc32Byte :: "uint32 \<Rightarrow> uint8 \<Rightarrow> uint32" where
  "Crc32Byte c b = (Crc32Shift ^^ 8) (c XOR ucast b)"

definition MemCrc32 :: "uint8 list \<Rightarrow> nat \<Rightarrow> uint32 \<Rightarrow> uint32" where
  "MemCrc32 Data Length CRC = NOT (foldl Crc32Byte (NOT CRC) (take Length Data))"

section \<open>Record keys and values\<close>

record FRecordKey =
  KeyData :: FInstancedStruct

definition FRecordKey_equals :: "FRecordKey \<Rightarrow> FRecordKey \<Rightarrow> bool" where
  "FRecordKey_equals a Other = FInstancedStruct_equals (KeyData a) (KeyData Other)"

definition GetTypeHash :: "FRecordKey \<Rightarrow> uint32" where
  "GetTypeHash k =
     (if IsValid (KeyData k) then
        (case ScriptStruct (KeyData k) of
           Some S \<Rightarrow> MemCrc32 (Memory (KeyData k)) (StructureSize S) 0
         | None \<Rightarrow> 0)
      else 0)"

record FRecordDefinition =
  Payload :: FInstancedStruct

section \<open>Entries and the replicated map\<close>

text \<open>
  An entry inherits \<open>ReplicationID\<close>, \<open>ReplicationKey\<close> and
  \<open>MostRecentArrayReplicationKey\<close> from \<open>FFastArraySerializerItem\<close>; the map inherits
  \<open>IDCounter\<close> and \<open>ArrayReplicationKey\<close> from \<open>FFastArraySerializer\<close>. They are
  the dirty marks the engine's delta serializer reads. \<open>Owner\<close> is the back-reference
  to the component, \<open>None\<close> for \<open>nullptr\<close>.
\<close>

record FNeoDataEntry =
  ReplicationID :: int32
  ReplicationKey :: int32
  MostRecentArrayReplicationKey :: int32
  Key :: FRecordKey
  Value :: FRecordDefinition

definition MakeEntry :: "FRecordKey \<Rightarrow> FRecordDefinition \<Rightarrow> FNeoDataEntry" where
  "MakeEntry InKey InValue =
     \<lparr>ReplicationID = INDEX_NONE, ReplicationKey = INDEX_NONE,
      MostRecentArrayReplicationKey = INDEX_NONE, Key = InKey, Value = InValue\<rparr>"

definition FNeoDataEntry_equals :: "FNeoDataEntry \<Rightarrow> FNeoDataEntry \<Rightarrow> bool" where
  "FNeoDataEntry_equals a Other = FRecordKey_equals (Key a) (Key Other)"

type_synonym UObjectRef = nat

record FNeoDataMap =
  IDCounter :: int32
  ArrayReplicationKey :: int32
  Items :: "FNeoDataEntry list"
  Owner :: "UObjectRef option"

definition EmptyMap :: "UObjectRef option \<Rightarrow> FNeoDataMap" where
  "EmptyMap ow = \<lparr>IDCounter = 0, ArrayReplicationKey = 0, Items = [], Owner = ow\<rparr>"

text \<open>
  The engine's dirty marking. \<open>MarkArrayDirty\<close> advances the array key, skipping
  \<open>INDEX_NONE\<close>. \<open>MarkItemDirty\<close> gives an item that has no id yet the next id of the
  map, advances the item's key and marks the array. The item is passed by reference in
  the source; here the marked item is returned and the caller stores it.
\<close>

definition MarkArrayDirty :: "FNeoDataMap \<Rightarrow> FNeoDataMap" where
  "MarkArrayDirty m =
     (let k = ArrayReplicationKey m + 1
      in m\<lparr>ArrayReplicationKey := (if k = INDEX_NONE then k + 1 else k)\<rparr>)"

definition MarkItemDirty :: "FNeoDataEntry \<Rightarrow> FNeoDataMap \<Rightarrow> FNeoDataEntry \<times> FNeoDataMap" where
  "MarkItemDirty Item m =
     (if ReplicationID Item = INDEX_NONE then
        (let c = IDCounter m + 1
         in (Item\<lparr>ReplicationID := c, ReplicationKey := ReplicationKey Item + 1\<rparr>,
             MarkArrayDirty (m\<lparr>IDCounter := (if c = INDEX_NONE then c + 1 else c)\<rparr>)))
      else (Item\<lparr>ReplicationKey := ReplicationKey Item + 1\<rparr>, MarkArrayDirty m))"

section \<open>Notifications\<close>

text \<open>
  The component's three multicast delegates. A broadcast runs the bound callbacks at
  once, inside the call that fires it, so a callback finds the entry array as it is at
  that moment: a broadcast is recorded as the event together with that array.
  Callbacks are taken to read the map, not to call back into it.
\<close>

datatype Event =
    OnKeyAdded FRecordKey FRecordDefinition
  | OnKeyUpdated FRecordKey FRecordDefinition
  | OnKeyRemoved FRecordKey

type_synonym Broadcast = "Event \<times> FNeoDataEntry list"

definition NotifyKeyAdded :: "FNeoDataEntry list \<Rightarrow> FRecordKey \<Rightarrow> FRecordDefinition \<Rightarrow> Broadcast list" where
  "NotifyKeyAdded seen k v = [(OnKeyAdded k v, seen)]"

definition NotifyKeyUpdated :: "FNeoDataEntry list \<Rightarrow> FRecordKey \<Rightarrow> FRecordDefinition \<Rightarrow> Broadcast list" where
  "NotifyKeyUpdated seen k v = [(OnKeyUpdated k v, seen)]"

definition NotifyKeyRemoved :: "FNeoDataEntry list \<Rightarrow> FRecordKey \<Rightarrow> Broadcast list" where
  "NotifyKeyRemoved seen k = [(OnKeyRemoved k, seen)]"

definition PreReplicatedRemove :: "FNeoDataEntry \<Rightarrow> FNeoDataMap \<Rightarrow> Broadcast list" where
  "PreReplicatedRemove e InArraySerializer =
     (if Owner InArraySerializer \<noteq> None
      then NotifyKeyRemoved (Items InArraySerializer) (Key e) else [])"

definition PostReplicatedAdd :: "FNeoDataEntry \<Rightarrow> FNeoDataMap \<Rightarrow> Broadcast list" where
  "PostReplicatedAdd e InArraySerializer =
     (if Owner InArraySerializer \<noteq> None
      then NotifyKeyAdded (Items InArraySerializer) (Key e) (Value e) else [])"

definition PostReplicatedChange :: "FNeoDataEntry \<Rightarrow> FNeoDataMap \<Rightarrow> Broadcast list" where
  "PostReplicatedChange e InArraySerializer =
     (if Owner InArraySerializer \<noteq> None
      then NotifyKeyUpdated (Items InArraySerializer) (Key e) (Value e) else [])"

section \<open>FNeoDataMap\<close>

text \<open>
  \<open>TArray::FindByPredicate\<close> returns a pointer to the first element the predicate
  accepts, or \<open>nullptr\<close>; the pointer is the element's index here.
  \<open>TArray::RemoveAt\<close> closes the gap and keeps the order of the rest.
\<close>

fun FindByPredicate :: "('a \<Rightarrow> bool) \<Rightarrow> 'a list \<Rightarrow> nat option" where
  "FindByPredicate P [] = None"
| "FindByPredicate P (x # xs) =
     (if P x then Some 0 else map_option Suc (FindByPredicate P xs))"

definition RemoveAt :: "nat \<Rightarrow> 'a list \<Rightarrow> 'a list" where
  "RemoveAt i xs = take i xs @ drop (Suc i) xs"

definition AddOrUpdate :: "FNeoDataMap \<Rightarrow> FRecordKey \<Rightarrow> FRecordDefinition \<Rightarrow> FNeoDataMap \<times> Broadcast list" where
  "AddOrUpdate m k v =
     (case FindByPredicate (\<lambda>Entry. FRecordKey_equals (Key Entry) k) (Items m) of
        Some i \<Rightarrow>
          (let (ExistingEntry, m1) = MarkItemDirty ((Items m ! i)\<lparr>Value := v\<rparr>) m;
               m2 = m1\<lparr>Items := (Items m)[i := ExistingEntry]\<rparr>
           in (m2, if Owner m2 \<noteq> None then NotifyKeyUpdated (Items m2) k v else []))
      | None \<Rightarrow>
          (let (NewEntry, m1) = MarkItemDirty (MakeEntry k v) m;
               m2 = m1\<lparr>Items := Items m @ [NewEntry]\<rparr>
           in (m2, if Owner m2 \<noteq> None then NotifyKeyAdded (Items m2) k v else [])))"

function RemoveFrom :: "nat \<Rightarrow> FNeoDataMap \<Rightarrow> FRecordKey \<Rightarrow> FNeoDataMap \<times> Broadcast list" where
  "RemoveFrom It m k =
     (if It < length (Items m) then
        (if FRecordKey_equals (Key (Items m ! It)) k then
           (let fired = (if Owner m \<noteq> None then NotifyKeyRemoved (Items m) k else [])
            in (MarkArrayDirty (m\<lparr>Items := RemoveAt It (Items m)\<rparr>), fired))
         else RemoveFrom (Suc It) m k)
      else (m, []))"
  by pat_completeness auto
termination
  by (relation "measure (\<lambda>(It, m, k). length (Items m) - It)") auto

definition Remove :: "FNeoDataMap \<Rightarrow> FRecordKey \<Rightarrow> FNeoDataMap \<times> Broadcast list" where
  "Remove m k = RemoveFrom 0 m k"

definition Find :: "FNeoDataMap \<Rightarrow> FRecordKey \<Rightarrow> FRecordDefinition option" where
  "Find m k =
     (case FindByPredicate (\<lambda>Item. FRecordKey_equals (Key Item) k) (Items m) of
        Some i \<Rightarrow> Some (Value (Items m ! i))
      | None \<Rightarrow> None)"

section \<open>UNeoReplicatedDataComponent\<close>

record UNeoReplicatedDataComponent =
  DataMap :: FNeoDataMap
  RestrictedKeyType :: "UScriptStruct option"
  RestrictedValueType :: "UScriptStruct option"

text \<open>
  The two warnings \<open>SetData\<close> writes to the log, with the type found and the type
  required. Type pointers are compared as pointers, \<open>None\<close> for \<open>nullptr\<close>.
\<close>

datatype LogLine =
    KeyTypeWarning "UScriptStruct option" "UScriptStruct option"
  | ValueTypeWarning "UScriptStruct option" "UScriptStruct option"

definition SetData :: "UNeoReplicatedDataComponent \<Rightarrow> FRecordKey \<Rightarrow> FRecordDefinition
    \<Rightarrow> UNeoReplicatedDataComponent \<times> Broadcast list \<times> LogLine list" where
  "SetData c k v =
     (if RestrictedKeyType c \<noteq> None \<and> ScriptStruct (KeyData k) \<noteq> RestrictedKeyType c
      then (c, [], [KeyTypeWarning (ScriptStruct (KeyData k)) (RestrictedKeyType c)])
      else if RestrictedValueType c \<noteq> None \<and> ScriptStruct (Payload v) \<noteq> RestrictedValueType c
      then (c, [], [ValueTypeWarning (ScriptStruct (Payload v)) (RestrictedValueType c)])
      else (let (m, fired) = AddOrUpdate (DataMap c) k v
            in (c\<lparr>DataMap := m\<rparr>, fired, [])))"


definition GetData :: "UNeoReplicatedDataComponent \<Rightarrow> FRecordKey \<Rightarrow> FRecordDefinition
    \<Rightarrow> bool \<times> FRecordDefinition" where
  "GetData c k OutValue =
     (case Find (DataMap c) k of Some Found \<Rightarrow> (True, Found) | None \<Rightarrow> (False, OutValue))"

definition GetKeys :: "UNeoReplicatedDataComponent \<Rightarrow> FRecordKey list" where
  "GetKeys c = foldl (\<lambda>Keys Entry. Keys @ [Key Entry]) [] (Items (DataMap c))"

section \<open>Call sequences\<close>

text \<open>
  A sequence of \<open>AddOrUpdate\<close> and \<open>Remove\<close> calls on a map, run from left to right.
\<close>

datatype Call = CallAddOrUpdate FRecordKey FRecordDefinition | CallRemove FRecordKey

fun Perform :: "FNeoDataMap \<Rightarrow> Call \<Rightarrow> FNeoDataMap" where
  "Perform m (CallAddOrUpdate k v) = fst (AddOrUpdate m k v)"
| "Perform m (CallRemove k) = fst (Remove m k)"

definition Run :: "FNeoDataMap \<Rightarrow> Call list \<Rightarrow> FNeoDataMap" where
  "Run m cs = foldl Perform m cs"

section \<open>Components and key arrays as objects\<close>












section \<open>What the specification talks about\<close>

text \<open>
  The content of the map is the key and the value of each entry, in storage order.
  \<open>CountKey\<close> counts the entries whose key equals a given key; \<open>UniqueKeys\<close> says
  that no two keys of a list are equal, both under \<open>FRecordKey::operator==\<close>.

  \<open>MostRecent\<close> follows the specification's words: over the calls made so far, newest
  first, it is the value passed to the most recent \<open>AddOrUpdate\<close> for the key that no
  \<open>Remove\<close> of the key follows, and \<open>before\<close> when no call names the key.
\<close>

definition Pairs :: "FNeoDataMap \<Rightarrow> (FRecordKey \<times> FRecordDefinition) list" where
  "Pairs m = map (\<lambda>e. (Key e, Value e)) (Items m)"

definition CountKey :: "FNeoDataMap \<Rightarrow> FRecordKey \<Rightarrow> nat" where
  "CountKey m k = length (filter (\<lambda>e. FRecordKey_equals (Key e) k) (Items m))"

fun UniqueKeys :: "FRecordKey list \<Rightarrow> bool" where
  "UniqueKeys [] = True"
| "UniqueKeys (k # ks) = (\<not> list_ex (\<lambda>k'. FRecordKey_equals k' k) ks \<and> UniqueKeys ks)"

fun MostRecent :: "FRecordDefinition option \<Rightarrow> Call list \<Rightarrow> FRecordKey \<Rightarrow> FRecordDefinition option" where
  "MostRecent before [] k = before"
| "MostRecent before (CallAddOrUpdate k' v # older) k =
     (if FRecordKey_equals k' k then Some v else MostRecent before older k)"
| "MostRecent before (CallRemove k' # older) k =
     (if FRecordKey_equals k' k then None else MostRecent before older k)"

text \<open>
  The three map operations once more, as recursions over the list of pairs. The proofs
  below go through them: each array operation is shown to act on \<open>Pairs\<close> as its
  list counterpart does.
\<close>

fun PutPair :: "FRecordKey \<Rightarrow> FRecordDefinition \<Rightarrow> (FRecordKey \<times> FRecordDefinition) list
    \<Rightarrow> (FRecordKey \<times> FRecordDefinition) list" where
  "PutPair k v [] = [(k, v)]"
| "PutPair k v (p # ps) =
     (if FRecordKey_equals (fst p) k then (fst p, v) # ps else p # PutPair k v ps)"

fun DelPair :: "FRecordKey \<Rightarrow> (FRecordKey \<times> FRecordDefinition) list
    \<Rightarrow> (FRecordKey \<times> FRecordDefinition) list" where
  "DelPair k [] = []"
| "DelPair k (p # ps) = (if FRecordKey_equals (fst p) k then ps else p # DelPair k ps)"

fun LookupPair :: "FRecordKey \<Rightarrow> (FRecordKey \<times> FRecordDefinition) list
    \<Rightarrow> FRecordDefinition option" where
  "LookupPair k [] = None"
| "LookupPair k (p # ps) =
     (if FRecordKey_equals (fst p) k then Some (snd p) else LookupPair k ps)"

section \<open>Sample data\<close>

text \<open>
  Two struct types a game could register, and values of them. \<open>FSlotKey\<close> has a
  one-byte \<open>Kind\<close> at offset 0 and a four-byte \<open>Id\<close> at offset 4, so bytes 1 to 3
  are padding; \<open>SlotKey kind pad\<close> is the key with that kind, id 7 and the padding
  bytes filled with \<open>pad\<close>. \<open>FScore\<close> is one four-byte property. \<open>OneSlot\<close> is the
  map one \<open>AddOrUpdate\<close> on the empty map builds, \<open>SlotsOnly\<close> a component
  restricted to \<open>FSlotKey\<close> keys, \<open>Revalued v m\<close> the map \<open>m\<close> with every value
  replaced by \<open>v\<close>. \<open>ReplayedBatch\<close> is a batch as the specification orders it,
  the removal first: it removes slot 1, sets slot 1 and sets slot 2.
\<close>

definition SlotKeyType :: UScriptStruct where
  "SlotKeyType = \<lparr>StructName = ''FSlotKey'', StructureSize = 8, Properties = [(0, 1), (4, 4)]\<rparr>"

definition SlotKey :: "uint8 \<Rightarrow> uint8 \<Rightarrow> FRecordKey" where
  "SlotKey kind pad =
     \<lparr>KeyData = \<lparr>ScriptStruct = Some SlotKeyType, Memory = [kind, pad, pad, pad, 7, 0, 0, 0]\<rparr>\<rparr>"

definition ScoreType :: UScriptStruct where
  "ScoreType = \<lparr>StructName = ''FScore'', StructureSize = 4, Properties = [(0, 4)]\<rparr>"

definition Score :: "uint8 \<Rightarrow> FRecordDefinition" where
  "Score n = \<lparr>Payload = \<lparr>ScriptStruct = Some ScoreType, Memory = [n, 0, 0, 0]\<rparr>\<rparr>"

definition TypedKey :: "UScriptStruct \<Rightarrow> uint8 list \<Rightarrow> FRecordKey" where
  "TypedKey S mem = \<lparr>KeyData = \<lparr>ScriptStruct = Some S, Memory = mem\<rparr>\<rparr>"

definition OneSlot :: "UObjectRef option \<Rightarrow> FNeoDataMap" where
  "OneSlot ow =
     \<lparr>IDCounter = 1, ArrayReplicationKey = 1,
      Items = [\<lparr>ReplicationID = 1, ReplicationKey = 0, MostRecentArrayReplicationKey = INDEX_NONE,
                Key = SlotKey 1 0, Value = Score 5\<rparr>],
      Owner = ow\<rparr>"

definition SlotsOnly :: UNeoReplicatedDataComponent where
  "SlotsOnly = \<lparr>DataMap = OneSlot (Some 1), RestrictedKeyType = Some SlotKeyType,
                RestrictedValueType = None\<rparr>"

definition Revalued :: "FRecordDefinition \<Rightarrow> FNeoDataMap \<Rightarrow> FNeoDataMap" where
  "Revalued v m = m\<lparr>Items := map (\<lambda>e. e\<lparr>Value := v\<rparr>) (Items m)\<rparr>"

definition ReplayedBatch :: "Call list" where
  "ReplayedBatch =
     [CallRemove (SlotKey 1 0), CallAddOrUpdate (SlotKey 1 0) (Score 1),
      CallAddOrUpdate (SlotKey 2 0) (Score 2)]"

section \<open>Key equality is an equivalence\<close>

lemma FRecordKey_equals_iff:
  "FRecordKey_equals a b =
     (ScriptStruct (KeyData a) = ScriptStruct (KeyData b) \<and>
      (\<forall>S. ScriptStruct (KeyData a) = Some S \<longrightarrow>
           map (\<lambda>p. PropertyBytes p (Memory (KeyData a))) (Properties S) =
           map (\<lambda>p. PropertyBytes p (Memory (KeyData b))) (Properties S)))"
  by (simp add: FRecordKey_equals_def FInstancedStruct_equals_def CompareScriptStruct_def
      split: option.split)

lemma FRecordKey_equals_refl: "FRecordKey_equals a a"
  by (simp add: FRecordKey_equals_iff)

lemma FRecordKey_equals_sym: "FRecordKey_equals a b = FRecordKey_equals b a"
  unfolding FRecordKey_equals_iff by (metis (no_types, lifting))

lemma FRecordKey_equals_trans:
  "FRecordKey_equals a b \<Longrightarrow> FRecordKey_equals b c \<Longrightarrow> FRecordKey_equals a c"
  unfolding FRecordKey_equals_iff by (metis (no_types, lifting))

lemma FRecordKey_equals_left:
  "FRecordKey_equals a b \<Longrightarrow> FRecordKey_equals a c = FRecordKey_equals b c"
  using FRecordKey_equals_sym FRecordKey_equals_trans by blast

lemma FRecordKey_equals_right:
  "FRecordKey_equals a b \<Longrightarrow> FRecordKey_equals c a = FRecordKey_equals c b"
  using FRecordKey_equals_sym FRecordKey_equals_trans by blast

subsection \<open>dirty marks leave keys and values alone\<close>

lemma MarkArrayDirty_Items: "Items (MarkArrayDirty m) = Items m"
  by (simp add: MarkArrayDirty_def Let_def)

lemma MarkArrayDirty_Owner: "Owner (MarkArrayDirty m) = Owner m"
  by (simp add: MarkArrayDirty_def Let_def)

lemma MarkItemDirty_Key: "Key (fst (MarkItemDirty e m)) = Key e"
  by (simp add: MarkItemDirty_def Let_def)

lemma MarkItemDirty_Value: "Value (fst (MarkItemDirty e m)) = Value e"
  by (simp add: MarkItemDirty_def Let_def)

lemma MarkItemDirty_Items: "Items (snd (MarkItemDirty e m)) = Items m"
  by (simp add: MarkItemDirty_def Let_def MarkArrayDirty_Items)

lemma MarkItemDirty_Owner: "Owner (snd (MarkItemDirty e m)) = Owner m"
  by (simp add: MarkItemDirty_def Let_def MarkArrayDirty_Owner)

subsection \<open>FindByPredicate\<close>

lemma FindByPredicate_None: "(FindByPredicate P xs = None) = (\<forall>x \<in> set xs. \<not> P x)"
  by (induction xs) auto

lemma FindByPredicate_Some:
  "FindByPredicate P xs = Some i \<Longrightarrow> i < length xs \<and> P (xs ! i)"
  by (induction xs arbitrary: i) (auto split: if_splits)

lemma FindByPredicate_first:
  "FindByPredicate P xs = Some i \<Longrightarrow> j < i \<Longrightarrow> \<not> P (xs ! j)"
proof (induction xs arbitrary: i j)
  case Nil
  then show ?case by simp
next
  case (Cons x xs)
  then show ?case by (cases j) (auto split: if_splits)
qed

subsection \<open>AddOrUpdate, Remove, Find on the array\<close>

lemma AddOrUpdate_Items:
  "Items (fst (AddOrUpdate m k v)) =
     (case FindByPredicate (\<lambda>Entry. FRecordKey_equals (Key Entry) k) (Items m) of
        Some i \<Rightarrow> (Items m)[i := fst (MarkItemDirty ((Items m ! i)\<lparr>Value := v\<rparr>) m)]
      | None \<Rightarrow> Items m @ [fst (MarkItemDirty (MakeEntry k v) m)])"
  by (simp add: AddOrUpdate_def Let_def case_prod_beta split: option.split)

lemma AddOrUpdate_Owner: "Owner (fst (AddOrUpdate m k v)) = Owner m"
  by (simp add: AddOrUpdate_def Let_def case_prod_beta MarkItemDirty_Owner split: option.split)

lemma AddOrUpdate_fired:
  "snd (AddOrUpdate m k v) =
     (if Owner m = None then []
      else case FindByPredicate (\<lambda>Entry. FRecordKey_equals (Key Entry) k) (Items m) of
             Some i \<Rightarrow> [(OnKeyUpdated k v, Items (fst (AddOrUpdate m k v)))]
           | None \<Rightarrow> [(OnKeyAdded k v, Items (fst (AddOrUpdate m k v)))])"
  by (simp add: AddOrUpdate_def Let_def case_prod_beta MarkItemDirty_Owner
      NotifyKeyUpdated_def NotifyKeyAdded_def split: option.split)

lemma RemoveFrom_eq:
  "It \<le> length (Items m) \<Longrightarrow>
   RemoveFrom It m k =
     (case FindByPredicate (\<lambda>e. FRecordKey_equals (Key e) k) (drop It (Items m)) of
        None \<Rightarrow> (m, [])
      | Some j \<Rightarrow>
          (MarkArrayDirty (m\<lparr>Items := RemoveAt (It + j) (Items m)\<rparr>),
           if Owner m \<noteq> None then NotifyKeyRemoved (Items m) k else []))"
proof (induction It m k rule: RemoveFrom.induct)
  case (1 It m k)
  show ?case
  proof (cases "It < length (Items m)")
    case False
    with "1.prems" show ?thesis by simp
  next
    case True
    then have d: "drop It (Items m) = Items m ! It # drop (Suc It) (Items m)"
      by (simp add: Cons_nth_drop_Suc)
    show ?thesis
    proof (cases "FRecordKey_equals (Key (Items m ! It)) k")
      case True
      with \<open>It < length (Items m)\<close> d show ?thesis by (simp add: Let_def)
    next
      case False
      with \<open>It < length (Items m)\<close> have "RemoveFrom It m k = RemoveFrom (Suc It) m k"
        by simp
      also have "\<dots> = (case FindByPredicate (\<lambda>e. FRecordKey_equals (Key e) k) (drop (Suc It) (Items m)) of
        None \<Rightarrow> (m, [])
      | Some j \<Rightarrow>
          (MarkArrayDirty (m\<lparr>Items := RemoveAt (Suc It + j) (Items m)\<rparr>),
           if Owner m \<noteq> None then NotifyKeyRemoved (Items m) k else []))"
        using "1.IH" True False by simp
      finally show ?thesis using d False by (simp split: option.split)
    qed
  qed
qed

lemma Remove_eq:
  "Remove m k =
     (case FindByPredicate (\<lambda>e. FRecordKey_equals (Key e) k) (Items m) of
        None \<Rightarrow> (m, [])
      | Some i \<Rightarrow>
          (MarkArrayDirty (m\<lparr>Items := RemoveAt i (Items m)\<rparr>),
           if Owner m \<noteq> None then NotifyKeyRemoved (Items m) k else []))"
  by (simp add: Remove_def RemoveFrom_eq del: RemoveFrom.simps split: option.split)


subsection \<open>the array as a list of pairs\<close>

lemma lookup_None: "(LookupPair k ps = None) = (\<not> list_ex (\<lambda>k'. FRecordKey_equals k' k) (map fst ps))"
  by (induction ps) auto

lemma del_absent: "\<not> list_ex (\<lambda>k'. FRecordKey_equals k' k) (map fst ps) \<Longrightarrow> DelPair k ps = ps"
  by (induction ps) auto

lemma put_absent:
  "\<not> list_ex (\<lambda>k'. FRecordKey_equals k' k) (map fst ps) \<Longrightarrow> PutPair k v ps = ps @ [(k, v)]"
  by (induction ps) auto

lemma lookup_append_absent:
  "\<not> list_ex (\<lambda>k'. FRecordKey_equals k' k) (map fst ps) \<Longrightarrow> LookupPair k (ps @ qs) = LookupPair k qs"
  by (induction ps) auto

lemma lookup_put:
  "LookupPair k (PutPair k' v ps) = (if FRecordKey_equals k' k then Some v else LookupPair k ps)"
proof (induction ps)
  case Nil
  show ?case by (simp add: FRecordKey_equals_refl)
next
  case (Cons p ps)
  show ?case
  proof (cases "FRecordKey_equals (fst p) k'")
    case True
    then have "FRecordKey_equals (fst p) k = FRecordKey_equals k' k"
      by (rule FRecordKey_equals_left)
    with True show ?thesis by simp
  next
    case False
    then have "\<not> (FRecordKey_equals (fst p) k \<and> FRecordKey_equals k' k)"
      using FRecordKey_equals_sym FRecordKey_equals_trans by blast
    with False Cons show ?thesis by auto
  qed
qed

lemma keys_put_present:
  "list_ex (\<lambda>k'. FRecordKey_equals k' k) (map fst ps) \<Longrightarrow> map fst (PutPair k v ps) = map fst ps"
  by (induction ps) auto

lemma put_put: "PutPair k v (PutPair k w ps) = PutPair k v ps"
  by (induction ps) (auto simp: FRecordKey_equals_refl)

lemma list_ex_del:
  "list_ex (\<lambda>k'. FRecordKey_equals k' k) (map fst (DelPair k' ps)) \<Longrightarrow>
   list_ex (\<lambda>k'. FRecordKey_equals k' k) (map fst ps)"
  by (induction ps) (auto split: if_splits)

lemma UniqueKeys_del: "UniqueKeys (map fst ps) \<Longrightarrow> UniqueKeys (map fst (DelPair k ps))"
  by (induction ps) (auto dest: list_ex_del)

lemma UniqueKeys_snoc:
  "UniqueKeys ks \<Longrightarrow> \<not> list_ex (\<lambda>k'. FRecordKey_equals k' k) ks \<Longrightarrow> UniqueKeys (ks @ [k])"
  by (induction ks) (auto simp: FRecordKey_equals_sym)

lemma UniqueKeys_put: "UniqueKeys (map fst ps) \<Longrightarrow> UniqueKeys (map fst (PutPair k v ps))"
proof (cases "list_ex (\<lambda>k'. FRecordKey_equals k' k) (map fst ps)")
  case True
  assume "UniqueKeys (map fst ps)"
  with True show ?thesis by (simp add: keys_put_present)
next
  case False
  assume "UniqueKeys (map fst ps)"
  with False show ?thesis by (simp add: put_absent UniqueKeys_snoc)
qed

lemma del_unique_absent:
  "UniqueKeys (map fst ps) \<Longrightarrow> \<not> list_ex (\<lambda>k'. FRecordKey_equals k' k) (map fst (DelPair k ps))"
proof (induction ps)
  case Nil
  show ?case by simp
next
  case (Cons p ps)
  show ?case
  proof (cases "FRecordKey_equals (fst p) k")
    case True
    have "\<not> list_ex (\<lambda>k'. FRecordKey_equals k' (fst p)) (map fst ps)"
      using Cons.prems by simp
    moreover have "\<And>k'. FRecordKey_equals k' (fst p) = FRecordKey_equals k' k"
      using True by (rule FRecordKey_equals_right)
    ultimately show ?thesis using True by simp
  next
    case False
    with Cons show ?thesis by simp
  qed
qed

lemma lookup_del_other:
  "\<not> FRecordKey_equals k' k \<Longrightarrow> LookupPair k (DelPair k' ps) = LookupPair k ps"
proof (induction ps)
  case Nil
  show ?case by simp
next
  case (Cons p ps)
  show ?case
  proof (cases "FRecordKey_equals (fst p) k'")
    case True
    then have "FRecordKey_equals (fst p) k = FRecordKey_equals k' k"
      by (rule FRecordKey_equals_left)
    with True Cons.prems show ?thesis by simp
  next
    case False
    with Cons show ?thesis by simp
  qed
qed

lemma lookup_del:
  assumes "UniqueKeys (map fst ps)"
  shows "LookupPair k (DelPair k' ps) = (if FRecordKey_equals k' k then None else LookupPair k ps)"
proof (cases "FRecordKey_equals k' k")
  case True
  have "\<not> list_ex (\<lambda>x. FRecordKey_equals x k') (map fst (DelPair k' ps))"
    using assms by (rule del_unique_absent)
  moreover have "\<And>x. FRecordKey_equals x k' = FRecordKey_equals x k"
    using True by (rule FRecordKey_equals_right)
  ultimately have "LookupPair k (DelPair k' ps) = None"
    by (simp add: lookup_None)
  with True show ?thesis by simp
next
  case False
  then show ?thesis by (simp add: lookup_del_other)
qed

lemma del_del: "UniqueKeys (map fst ps) \<Longrightarrow> DelPair k (DelPair k ps) = DelPair k ps"
  by (simp add: del_absent del_unique_absent)

lemma put_del:
  "UniqueKeys (map fst ps) \<Longrightarrow> PutPair k v (DelPair k ps) = DelPair k ps @ [(k, v)]"
  by (simp add: put_absent del_unique_absent)

lemma count_absent:
  "\<not> list_ex (\<lambda>k'. FRecordKey_equals k' k) (map fst ps) \<Longrightarrow>
   filter (\<lambda>p. FRecordKey_equals (fst p) k) ps = []"
  by (induction ps) auto

lemma count_unique:
  "UniqueKeys (map fst ps) \<Longrightarrow> length (filter (\<lambda>p. FRecordKey_equals (fst p) k) ps) \<le> 1"
proof (induction ps)
  case Nil
  show ?case by simp
next
  case (Cons p ps)
  show ?case
  proof (cases "FRecordKey_equals (fst p) k")
    case True
    have "\<not> list_ex (\<lambda>k'. FRecordKey_equals k' (fst p)) (map fst ps)"
      using Cons.prems by simp
    moreover have "\<And>k'. FRecordKey_equals k' (fst p) = FRecordKey_equals k' k"
      using True by (rule FRecordKey_equals_right)
    ultimately have "filter (\<lambda>p. FRecordKey_equals (fst p) k) ps = []"
      by (simp add: count_absent)
    with True show ?thesis by simp
  next
    case False
    with Cons show ?thesis by simp
  qed
qed

lemma count_present:
  "LookupPair k ps \<noteq> None \<Longrightarrow> 0 < length (filter (\<lambda>p. FRecordKey_equals (fst p) k) ps)"
  by (induction ps) (auto split: if_splits)

subsection \<open>the operations on the list of pairs\<close>

lemma pairs_update:
  "FindByPredicate (\<lambda>e. FRecordKey_equals (Key e) k) xs = Some i \<Longrightarrow>
   Key e' = Key (xs ! i) \<Longrightarrow> Value e' = v \<Longrightarrow>
   map (\<lambda>e. (Key e, Value e)) (xs[i := e']) = PutPair k v (map (\<lambda>e. (Key e, Value e)) xs)"
proof (induction xs arbitrary: i)
  case Nil
  then show ?case by simp
next
  case (Cons x xs)
  show ?case
  proof (cases "FRecordKey_equals (Key x) k")
    case True
    with Cons.prems show ?thesis by simp
  next
    case False
    with Cons.prems obtain j where j: "i = Suc j"
      "FindByPredicate (\<lambda>e. FRecordKey_equals (Key e) k) xs = Some j"
      by auto
    with Cons.prems Cons.IH [of j] False show ?thesis by simp
  qed
qed

lemma pairs_absent:
  "FindByPredicate (\<lambda>e. FRecordKey_equals (Key e) k) xs = None \<Longrightarrow>
   \<not> list_ex (\<lambda>k'. FRecordKey_equals k' k) (map fst (map (\<lambda>e. (Key e, Value e)) xs))"
  by (induction xs) (auto split: if_splits)

lemma pairs_present:
  "FindByPredicate (\<lambda>e. FRecordKey_equals (Key e) k) xs = Some i \<Longrightarrow>
   list_ex (\<lambda>k'. FRecordKey_equals k' k) (map fst (map (\<lambda>e. (Key e, Value e)) xs))"
  by (induction xs arbitrary: i) (auto split: if_splits)

lemma pairs_RemoveAt:
  "FindByPredicate (\<lambda>e. FRecordKey_equals (Key e) k) xs = Some i \<Longrightarrow>
   map (\<lambda>e. (Key e, Value e)) (RemoveAt i xs) = DelPair k (map (\<lambda>e. (Key e, Value e)) xs)"
proof (induction xs arbitrary: i)
  case Nil
  then show ?case by simp
next
  case (Cons x xs)
  show ?case
  proof (cases "FRecordKey_equals (Key x) k")
    case True
    with Cons.prems show ?thesis by (simp add: RemoveAt_def)
  next
    case False
    with Cons.prems obtain j where j: "i = Suc j"
      "FindByPredicate (\<lambda>e. FRecordKey_equals (Key e) k) xs = Some j"
      by auto
    with Cons.IH [of j] False show ?thesis by (simp add: RemoveAt_def)
  qed
qed

lemma pairs_lookup:
  "(case FindByPredicate (\<lambda>e. FRecordKey_equals (Key e) k) xs of
      Some i \<Rightarrow> Some (Value (xs ! i)) | None \<Rightarrow> None) =
   LookupPair k (map (\<lambda>e. (Key e, Value e)) xs)"
  by (induction xs) (auto split: option.splits)

lemma Pairs_AddOrUpdate: "Pairs (fst (AddOrUpdate m k v)) = PutPair k v (Pairs m)"
proof (cases "FindByPredicate (\<lambda>Entry. FRecordKey_equals (Key Entry) k) (Items m)")
  case None
  then show ?thesis
    using pairs_absent [OF None]
    by (simp add: Pairs_def AddOrUpdate_Items put_absent MarkItemDirty_Key MarkItemDirty_Value
        MakeEntry_def)
next
  case (Some i)
  then show ?thesis
    by (simp add: Pairs_def AddOrUpdate_Items pairs_update MarkItemDirty_Key MarkItemDirty_Value)
qed

lemma Pairs_Remove: "Pairs (fst (Remove m k)) = DelPair k (Pairs m)"
proof (cases "FindByPredicate (\<lambda>e. FRecordKey_equals (Key e) k) (Items m)")
  case None
  then show ?thesis
    using pairs_absent [OF None] by (simp add: Pairs_def Remove_eq del_absent)
next
  case (Some i)
  then show ?thesis
    by (simp add: Pairs_def Remove_eq pairs_RemoveAt MarkArrayDirty_Items)
qed

lemma Find_lookup: "Find m k = LookupPair k (Pairs m)"
  by (simp add: Find_def Pairs_def pairs_lookup)

lemma CountKey_Pairs:
  "CountKey m k = length (filter (\<lambda>p. FRecordKey_equals (fst p) k) (Pairs m))"
  by (simp add: CountKey_def Pairs_def filter_map comp_def)

lemma keys_Pairs: "map fst (Pairs m) = map Key (Items m)"
  by (simp add: Pairs_def comp_def)

section \<open>Sequences of calls\<close>

lemma Run_snoc: "Run m (cs @ [c]) = Perform (Run m cs) c"
  by (simp add: Run_def)

lemma UniqueKeys_Perform:
  "UniqueKeys (map Key (Items m)) \<Longrightarrow> UniqueKeys (map Key (Items (Perform m c)))"
proof (cases c)
  case (CallAddOrUpdate k v)
  assume "UniqueKeys (map Key (Items m))"
  then have "UniqueKeys (map fst (PutPair k v (Pairs m)))"
    by (simp add: keys_Pairs UniqueKeys_put)
  with CallAddOrUpdate show ?thesis
    by (simp add: Pairs_AddOrUpdate [symmetric] keys_Pairs)
next
  case (CallRemove k)
  assume "UniqueKeys (map Key (Items m))"
  then have "UniqueKeys (map fst (DelPair k (Pairs m)))"
    by (simp add: keys_Pairs UniqueKeys_del)
  with CallRemove show ?thesis
    by (simp add: Pairs_Remove [symmetric] keys_Pairs)
qed

lemma UniqueKeys_Run:
  "UniqueKeys (map Key (Items m)) \<Longrightarrow> UniqueKeys (map Key (Items (Run m cs)))"
proof (induction cs rule: rev_induct)
  case Nil
  then show ?case by (simp add: Run_def)
next
  case (snoc c cs)
  then show ?case by (simp add: Run_snoc UniqueKeys_Perform)
qed

lemma Find_Perform:
  "UniqueKeys (map Key (Items m)) \<Longrightarrow>
   Find (Perform m c) k = MostRecent (Find m k) [c] k"
proof (cases c)
  case (CallAddOrUpdate k' v)
  then show ?thesis by (simp add: Find_lookup Pairs_AddOrUpdate lookup_put)
next
  case (CallRemove k')
  assume "UniqueKeys (map Key (Items m))"
  with CallRemove show ?thesis
    by (simp add: Find_lookup Pairs_Remove lookup_del keys_Pairs)
qed

lemma MostRecent_Cons:
  "MostRecent before (c # older) k = MostRecent (MostRecent before older k) [c] k"
  by (cases c) simp_all

lemma MostRecent_idem: "MostRecent (MostRecent before cs k) cs k = MostRecent before cs k"
  by (induction before cs k rule: MostRecent.induct) auto

lemma Find_Run:
  "UniqueKeys (map Key (Items m)) \<Longrightarrow> Find (Run m cs) k = MostRecent (Find m k) (rev cs) k"
proof (induction cs rule: rev_induct)
  case Nil
  show ?case by (simp add: Run_def)
next
  case (snoc c cs)
  have "Find (Run m (cs @ [c])) k = MostRecent (Find (Run m cs) k) [c] k"
    using snoc.prems by (simp add: Run_snoc Find_Perform UniqueKeys_Run)
  also have "\<dots> = MostRecent (Find m k) (rev (cs @ [c])) k"
    using snoc by (simp add: MostRecent_Cons [of _ c "rev cs"])
  finally show ?case .
qed

lemma CountKey_le_1: "UniqueKeys (map Key (Items m)) \<Longrightarrow> CountKey m k \<le> 1"
  using count_unique [of "Pairs m" k] by (simp add: CountKey_Pairs keys_Pairs)

lemma Find_None_iff:
  "(Find m k = None) = (FindByPredicate (\<lambda>e. FRecordKey_equals (Key e) k) (Items m) = None)"
  by (simp add: Find_def split: option.split)

lemma Remove_absent: "Find m k = None \<Longrightarrow> Remove m k = (m, [])"
  by (simp add: Find_None_iff Remove_eq)

lemma Find_Remove_same:
  "UniqueKeys (map Key (Items m)) \<Longrightarrow> Find (fst (Remove m k)) k = None"
  by (simp add: Find_lookup Pairs_Remove lookup_del keys_Pairs FRecordKey_equals_refl)

lemma count_put:
  "UniqueKeys (map fst ps) \<Longrightarrow>
   length (filter (\<lambda>p. FRecordKey_equals (fst p) k) (PutPair k v ps)) = 1"
proof -
  assume "UniqueKeys (map fst ps)"
  then have "UniqueKeys (map fst (PutPair k v ps))"
    by (rule UniqueKeys_put)
  then have "length (filter (\<lambda>p. FRecordKey_equals (fst p) k) (PutPair k v ps)) \<le> 1"
    by (rule count_unique)
  moreover have "LookupPair k (PutPair k v ps) \<noteq> None"
    by (simp add: lookup_put FRecordKey_equals_refl)
  then have "0 < length (filter (\<lambda>p. FRecordKey_equals (fst p) k) (PutPair k v ps))"
    by (rule count_present)
  ultimately show ?thesis by linarith
qed

lemma count_del:
  "LookupPair k ps \<noteq> None \<Longrightarrow>
   length (filter (\<lambda>p. FRecordKey_equals (fst p) k) (DelPair k ps)) + 1 =
   length (filter (\<lambda>p. FRecordKey_equals (fst p) k) ps)"
  by (induction ps) (auto split: if_splits)

section \<open>Keys alone decide the lookups\<close>

lemma FindByPredicate_keys:
  "FindByPredicate (\<lambda>e. FRecordKey_equals (Key e) k) xs =
   FindByPredicate (\<lambda>k'. FRecordKey_equals k' k) (map Key xs)"
  by (induction xs) auto

lemma keys_AddOrUpdate:
  "map Key (Items (fst (AddOrUpdate m k v))) =
     (case FindByPredicate (\<lambda>k'. FRecordKey_equals k' k) (map Key (Items m)) of
        Some i \<Rightarrow> map Key (Items m) | None \<Rightarrow> map Key (Items m) @ [k])"
proof (cases "FindByPredicate (\<lambda>e. FRecordKey_equals (Key e) k) (Items m)")
  case None
  then show ?thesis
    by (simp add: AddOrUpdate_Items FindByPredicate_keys [symmetric] MarkItemDirty_Key MakeEntry_def)
next
  case (Some i)
  then have "i < length (Items m)"
    by (simp add: FindByPredicate_Some)
  with Some show ?thesis
    by (simp add: AddOrUpdate_Items FindByPredicate_keys [symmetric] MarkItemDirty_Key
        map_update list_update_same_conv)
qed

lemma keys_Remove:
  "map Key (Items (fst (Remove m k))) =
     (case FindByPredicate (\<lambda>k'. FRecordKey_equals k' k) (map Key (Items m)) of
        Some i \<Rightarrow> RemoveAt i (map Key (Items m)) | None \<Rightarrow> map Key (Items m))"
  by (simp add: Remove_eq FindByPredicate_keys [symmetric] MarkArrayDirty_Items RemoveAt_def
      take_map drop_map split: option.split)

section \<open>The loop of GetKeys\<close>


section \<open>Arrays that GetKeys returned stay as they are\<close>










section \<open>Dirty marks and the owner\<close>

lemma MarkItemDirty_Owner_update:
  "MarkItemDirty e (m\<lparr>Owner := ow\<rparr>) =
     (fst (MarkItemDirty e m), (snd (MarkItemDirty e m))\<lparr>Owner := ow\<rparr>)"
  by (simp add: MarkItemDirty_def Let_def MarkArrayDirty_def)

section \<open>The sample data evaluated\<close>

lemma SlotKey_equals: "FRecordKey_equals (SlotKey a p) (SlotKey b q) = (a = b)"
  by (simp add: SlotKey_def SlotKeyType_def FRecordKey_equals_def FInstancedStruct_equals_def
      CompareScriptStruct_def PropertyBytes_def)

lemma Pairs_EmptyMap: "Pairs (EmptyMap ow) = []"
  by (simp add: Pairs_def EmptyMap_def)

lemma OneSlot_built: "fst (AddOrUpdate (EmptyMap ow) (SlotKey 1 0) (Score 5)) = OneSlot ow"
  by (simp add: AddOrUpdate_def EmptyMap_def OneSlot_def MarkItemDirty_def MarkArrayDirty_def
      MakeEntry_def INDEX_NONE_def Let_def)

lemma OneSlot_Find: "Find (OneSlot ow) (SlotKey a p) = (if 1 = a then Some (Score 5) else None)"
  by (simp add: Find_def OneSlot_def SlotKey_equals)

lemma Crc32_eight_shifts: "(f ^^ 8) x = f (f (f (f (f (f (f (f x)))))))"
  by (simp add: eval_nat_numeral)

section \<open>The claims\<close>

text \<open>
  C1. Keys that are equal should hash equally, the hash covering the logical fields and
  never raw memory. The code does otherwise: \<open>GetTypeHash\<close> runs \<open>MemCrc32\<close> over
  the \<open>StructureSize\<close> bytes of the key's memory, padding included, while equality
  compares the properties. Two \<open>FSlotKey\<close> keys with the same \<open>Kind\<close> and \<open>Id\<close>,
  one with zeroed padding and one with \<open>0xCD\<close> left in it, are equal and hash
  differently.
\<close>

theorem GetTypeHash_covers_padding:
  "FRecordKey_equals (SlotKey 1 0) (SlotKey 1 0xCD) \<and>
   GetTypeHash (SlotKey 1 0) \<noteq> GetTypeHash (SlotKey 1 0xCD)"
proof
  show "FRecordKey_equals (SlotKey 1 0) (SlotKey 1 0xCD)"
    by (simp add: SlotKey_equals)
  show "GetTypeHash (SlotKey 1 0) \<noteq> GetTypeHash (SlotKey 1 0xCD)"
    by (simp add: GetTypeHash_def IsValid_def SlotKey_def SlotKeyType_def MemCrc32_def
        Crc32Byte_def Crc32Shift_def Crc32_eight_shifts)
qed

text \<open>
  C2. When a key type or a value type restriction is set and \<open>SetData\<close> is called with
  a key or a value of another type, the component is unchanged, so \<open>GetKeys\<close> and every
  \<open>Find\<close> give what they gave before, and no delegate is broadcast.
\<close>

theorem SetData_rejects_mismatch:
  assumes "(RestrictedKeyType c \<noteq> None \<and> ScriptStruct (KeyData k) \<noteq> RestrictedKeyType c) \<or>
           (RestrictedValueType c \<noteq> None \<and> ScriptStruct (Payload v) \<noteq> RestrictedValueType c)"
  shows "fst (SetData c k v) = c \<and> fst (snd (SetData c k v)) = [] \<and>
         GetKeys (fst (SetData c k v)) = GetKeys c \<and>
         Find (DataMap (fst (SetData c k v))) q = Find (DataMap c) q"
  using assms by (auto simp: SetData_def)

theorem SetData_rejects_mismatch_witness:
  "RestrictedKeyType SlotsOnly \<noteq> None \<and>
   ScriptStruct (KeyData (TypedKey ScoreType [3, 0, 0, 0])) \<noteq> RestrictedKeyType SlotsOnly \<and>
   fst (SetData SlotsOnly (TypedKey ScoreType [3, 0, 0, 0]) (Score 9)) = SlotsOnly \<and>
   fst (snd (SetData SlotsOnly (TypedKey ScoreType [3, 0, 0, 0]) (Score 9))) = [] \<and>
   GetKeys (fst (SetData SlotsOnly (TypedKey ScoreType [3, 0, 0, 0]) (Score 9))) = GetKeys SlotsOnly \<and>
   Find (DataMap (fst (SetData SlotsOnly (TypedKey ScoreType [3, 0, 0, 0]) (Score 9)))) (SlotKey 1 0) =
     Find (DataMap SlotsOnly) (SlotKey 1 0)"
proof -
  have h: "RestrictedKeyType SlotsOnly \<noteq> None \<and>
      ScriptStruct (KeyData (TypedKey ScoreType [3, 0, 0, 0])) \<noteq> RestrictedKeyType SlotsOnly"
    by (simp add: SlotsOnly_def TypedKey_def ScoreType_def SlotKeyType_def)
  then have "(RestrictedKeyType SlotsOnly \<noteq> None \<and>
      ScriptStruct (KeyData (TypedKey ScoreType [3, 0, 0, 0])) \<noteq> RestrictedKeyType SlotsOnly) \<or>
     (RestrictedValueType SlotsOnly \<noteq> None \<and>
      ScriptStruct (Payload (Score 9)) \<noteq> RestrictedValueType SlotsOnly)"
    by (rule disjI1)
  from SetData_rejects_mismatch [OF this, where q = "SlotKey 1 0"] h show ?thesis by simp
qed

text \<open>
  C3. After any sequence of \<open>AddOrUpdate\<close> and \<open>Remove\<close> calls on the empty map, at
  most one entry has a given key, and \<open>Find\<close> returns the value of the most recent
  \<open>AddOrUpdate\<close> for the key that no \<open>Remove\<close> of the key follows, and nothing when
  there is none. Keys are compared with \<open>FRecordKey::operator==\<close> throughout.
\<close>

theorem one_entry_per_key_latest_value:
  "CountKey (Run (EmptyMap ow) cs) k \<le> 1 \<and>
   Find (Run (EmptyMap ow) cs) k = MostRecent None (rev cs) k"
proof -
  have u: "UniqueKeys (map Key (Items (EmptyMap ow)))"
    by (simp add: EmptyMap_def)
  have "Find (EmptyMap ow) k = None"
    by (simp add: Find_def EmptyMap_def)
  with Find_Run [OF u, of cs k] CountKey_le_1 [OF UniqueKeys_Run [OF u]]
  show ?thesis by simp
qed

theorem one_entry_per_key_latest_value_witness:
  "CountKey (Run (EmptyMap None)
      [CallAddOrUpdate (SlotKey 1 0) (Score 5), CallRemove (SlotKey 1 0),
       CallAddOrUpdate (SlotKey 1 0xCD) (Score 9), CallRemove (SlotKey 2 0)]) (SlotKey 1 0) \<le> 1 \<and>
   Find (Run (EmptyMap None)
      [CallAddOrUpdate (SlotKey 1 0) (Score 5), CallRemove (SlotKey 1 0),
       CallAddOrUpdate (SlotKey 1 0xCD) (Score 9), CallRemove (SlotKey 2 0)]) (SlotKey 1 0) =
     Some (Score 9)"
  using one_entry_per_key_latest_value [of None
      "[CallAddOrUpdate (SlotKey 1 0) (Score 5), CallRemove (SlotKey 1 0),
        CallAddOrUpdate (SlotKey 1 0xCD) (Score 9), CallRemove (SlotKey 2 0)]" "SlotKey 1 0"]
  by (simp add: SlotKey_equals)

text \<open>
  C4, as amended. On a map whose \<open>Owner\<close> is set, \<open>AddOrUpdate\<close> of a key that has an
  entry replaces the value in place and broadcasts \<open>OnKeyUpdated\<close> once and nothing
  else; of a key that has none, it appends the entry and broadcasts \<open>OnKeyAdded\<close> once
  and nothing else. The callbacks find the array as the call leaves it. Afterwards
  \<open>Find\<close> gives the new value, the other keys are as before, and a map that held at
  most one entry per key holds exactly one for this key.
\<close>

theorem AddOrUpdate_updates_or_adds:
  assumes "Owner m \<noteq> None"
  shows "(Find m k \<noteq> None \<longrightarrow>
            snd (AddOrUpdate m k v) = [(OnKeyUpdated k v, Items (fst (AddOrUpdate m k v)))] \<and>
            length (Items (fst (AddOrUpdate m k v))) = length (Items m)) \<and>
         (Find m k = None \<longrightarrow>
            snd (AddOrUpdate m k v) = [(OnKeyAdded k v, Items (fst (AddOrUpdate m k v)))] \<and>
            Pairs (fst (AddOrUpdate m k v)) = Pairs m @ [(k, v)]) \<and>
         Find (fst (AddOrUpdate m k v)) k = Some v \<and>
         (\<forall>q. \<not> FRecordKey_equals k q \<longrightarrow> Find (fst (AddOrUpdate m k v)) q = Find m q) \<and>
         (UniqueKeys (map Key (Items m)) \<longrightarrow> CountKey (fst (AddOrUpdate m k v)) k = 1)"
proof (intro conjI impI allI)
  assume "Find m k \<noteq> None"
  then obtain i where i: "FindByPredicate (\<lambda>e. FRecordKey_equals (Key e) k) (Items m) = Some i"
    by (auto simp: Find_None_iff)
  with assms show "snd (AddOrUpdate m k v) = [(OnKeyUpdated k v, Items (fst (AddOrUpdate m k v)))]"
    by (simp add: AddOrUpdate_fired)
  from i show "length (Items (fst (AddOrUpdate m k v))) = length (Items m)"
    by (simp add: AddOrUpdate_Items)
next
  assume n: "Find m k = None"
  then have f: "FindByPredicate (\<lambda>e. FRecordKey_equals (Key e) k) (Items m) = None"
    by (simp add: Find_None_iff)
  with assms show "snd (AddOrUpdate m k v) = [(OnKeyAdded k v, Items (fst (AddOrUpdate m k v)))]"
    by (simp add: AddOrUpdate_fired)
  from n have "\<not> list_ex (\<lambda>k'. FRecordKey_equals k' k) (map fst (Pairs m))"
    by (simp add: Find_lookup lookup_None)
  then show "Pairs (fst (AddOrUpdate m k v)) = Pairs m @ [(k, v)]"
    by (simp add: Pairs_AddOrUpdate put_absent)
next
  show "Find (fst (AddOrUpdate m k v)) k = Some v"
    by (simp add: Find_lookup Pairs_AddOrUpdate lookup_put FRecordKey_equals_refl)
next
  fix q
  assume "\<not> FRecordKey_equals k q"
  then show "Find (fst (AddOrUpdate m k v)) q = Find m q"
    by (simp add: Find_lookup Pairs_AddOrUpdate lookup_put)
next
  assume "UniqueKeys (map Key (Items m))"
  then show "CountKey (fst (AddOrUpdate m k v)) k = 1"
    by (simp add: CountKey_Pairs Pairs_AddOrUpdate count_put keys_Pairs)
qed

theorem AddOrUpdate_updates_or_adds_witness:
  "Owner (OneSlot (Some 1)) \<noteq> None \<and> UniqueKeys (map Key (Items (OneSlot (Some 1)))) \<and>
   Find (OneSlot (Some 1)) (SlotKey 1 0xCD) \<noteq> None \<and>
   snd (AddOrUpdate (OneSlot (Some 1)) (SlotKey 1 0xCD) (Score 9)) =
     [(OnKeyUpdated (SlotKey 1 0xCD) (Score 9),
       Items (fst (AddOrUpdate (OneSlot (Some 1)) (SlotKey 1 0xCD) (Score 9))))] \<and>
   CountKey (fst (AddOrUpdate (OneSlot (Some 1)) (SlotKey 1 0xCD) (Score 9))) (SlotKey 1 0xCD) = 1 \<and>
   \<not> FRecordKey_equals (SlotKey 2 0) (SlotKey 1 0) \<and>
   Find (fst (AddOrUpdate (OneSlot (Some 1)) (SlotKey 2 0) (Score 9))) (SlotKey 1 0) =
     Find (OneSlot (Some 1)) (SlotKey 1 0) \<and>
   Find (OneSlot (Some 1)) (SlotKey 2 0) = None \<and>
   snd (AddOrUpdate (OneSlot (Some 1)) (SlotKey 2 0) (Score 9)) =
     [(OnKeyAdded (SlotKey 2 0) (Score 9),
       Items (fst (AddOrUpdate (OneSlot (Some 1)) (SlotKey 2 0) (Score 9))))] \<and>
   CountKey (fst (AddOrUpdate (OneSlot (Some 1)) (SlotKey 2 0) (Score 9))) (SlotKey 2 0) = 1"
proof -
  have o: "Owner (OneSlot (Some 1)) \<noteq> None"
    by (simp add: OneSlot_def)
  have u: "UniqueKeys (map Key (Items (OneSlot (Some 1))))"
    by (simp add: OneSlot_def)
  have p: "Find (OneSlot (Some 1)) (SlotKey 1 0xCD) \<noteq> None"
    by (simp add: OneSlot_Find)
  have a: "Find (OneSlot (Some 1)) (SlotKey 2 0) = None"
    by (simp add: OneSlot_Find)
  have d: "\<not> FRecordKey_equals (SlotKey 2 0) (SlotKey 1 0)"
    by (simp add: SlotKey_equals)
  from o u p a d
    AddOrUpdate_updates_or_adds [OF o, where k = "SlotKey 1 0xCD" and v = "Score 9"]
    AddOrUpdate_updates_or_adds [OF o, where k = "SlotKey 2 0" and v = "Score 9"]
  show ?thesis by simp
qed

text \<open>
  The claim as it was written fails on a map whose \<open>Owner\<close> is null, which is what the
  constructor of \<open>FNeoDataMap\<close> builds: the entry is added and nothing is broadcast.
\<close>

theorem AddOrUpdate_null_owner_silent:
  "Find (EmptyMap None) (SlotKey 1 0) = None \<and>
   snd (AddOrUpdate (EmptyMap None) (SlotKey 1 0) (Score 5)) = []"
  by (simp add: Find_def EmptyMap_def AddOrUpdate_fired)

text \<open>
  C5, as amended. On a map whose \<open>Owner\<close> is set, \<open>Remove\<close> of a key that has an entry
  broadcasts \<open>OnKeyRemoved\<close> once, and the callbacks find the array as it was before
  the call, the entry still in it; then one entry with the key is gone. \<open>Remove\<close> of
  a key that has no entry returns the map as it was and broadcasts nothing.
\<close>

theorem Remove_notifies_then_deletes:
  assumes "Owner m \<noteq> None"
  shows "(Find m k \<noteq> None \<longrightarrow>
            snd (Remove m k) = [(OnKeyRemoved k, Items m)] \<and>
            0 < CountKey m k \<and>
            CountKey (fst (Remove m k)) k + 1 = CountKey m k) \<and>
         (Find m k = None \<longrightarrow> Remove m k = (m, []))"
proof (intro conjI impI)
  assume p: "Find m k \<noteq> None"
  then obtain i where i: "FindByPredicate (\<lambda>e. FRecordKey_equals (Key e) k) (Items m) = Some i"
    by (auto simp: Find_None_iff)
  with assms show "snd (Remove m k) = [(OnKeyRemoved k, Items m)]"
    by (simp add: Remove_eq NotifyKeyRemoved_def)
  from p have "LookupPair k (Pairs m) \<noteq> None"
    by (simp add: Find_lookup)
  then have "0 < length (filter (\<lambda>p. FRecordKey_equals (fst p) k) (Pairs m))"
    by (rule count_present)
  then show "0 < CountKey m k"
    by (simp only: CountKey_Pairs)
  from p show "CountKey (fst (Remove m k)) k + 1 = CountKey m k"
    using count_del [of k "Pairs m"] by (simp add: CountKey_Pairs Find_lookup Pairs_Remove)
next
  assume "Find m k = None"
  then show "Remove m k = (m, [])"
    by (rule Remove_absent)
qed

theorem Remove_notifies_then_deletes_witness:
  "Owner (OneSlot (Some 1)) \<noteq> None \<and>
   Find (OneSlot (Some 1)) (SlotKey 1 0) \<noteq> None \<and>
   snd (Remove (OneSlot (Some 1)) (SlotKey 1 0)) =
     [(OnKeyRemoved (SlotKey 1 0), Items (OneSlot (Some 1)))] \<and>
   0 < CountKey (OneSlot (Some 1)) (SlotKey 1 0) \<and>
   CountKey (fst (Remove (OneSlot (Some 1)) (SlotKey 1 0))) (SlotKey 1 0) + 1 =
     CountKey (OneSlot (Some 1)) (SlotKey 1 0) \<and>
   Find (OneSlot (Some 1)) (SlotKey 2 0) = None \<and>
   Remove (OneSlot (Some 1)) (SlotKey 2 0) = (OneSlot (Some 1), [])"
proof -
  have o: "Owner (OneSlot (Some 1)) \<noteq> None"
    by (simp add: OneSlot_def)
  have p: "Find (OneSlot (Some 1)) (SlotKey 1 0) \<noteq> None"
    by (simp add: OneSlot_Find)
  have a: "Find (OneSlot (Some 1)) (SlotKey 2 0) = None"
    by (simp add: OneSlot_Find)
  from o p a
    Remove_notifies_then_deletes [OF o, where k = "SlotKey 1 0"]
    Remove_notifies_then_deletes [OF o, where k = "SlotKey 2 0"]
  show ?thesis by simp
qed

text \<open>
  The claim as it was written fails on a map whose \<open>Owner\<close> is null: the entry is
  there, \<open>Remove\<close> deletes it, and nothing is broadcast.
\<close>

theorem Remove_null_owner_silent:
  "Find (OneSlot None) (SlotKey 1 0) \<noteq> None \<and> snd (Remove (OneSlot None) (SlotKey 1 0)) = []"
proof
  show "Find (OneSlot None) (SlotKey 1 0) \<noteq> None"
    by (simp add: OneSlot_Find)
  show "snd (Remove (OneSlot None) (SlotKey 1 0)) = []"
    by (simp add: Remove_eq OneSlot_def SlotKey_equals)
qed

text \<open>
  C6, as amended. \<open>AddOrUpdate\<close> of the same key and value twice leaves the keys and
  values of the entries, in storage order, as one call does; the dirty marks advance
  with each call. On a map with at most one entry per key, \<open>Remove\<close> twice leaves
  the map one \<open>Remove\<close> leaves, and running any sequence of calls a second time, as a
  batch delivered twice is, leaves every \<open>Find\<close> as the first run left it; the
  storage order may change.
\<close>

theorem replay_idempotent:
  "Pairs (fst (AddOrUpdate (fst (AddOrUpdate m k v)) k v)) = Pairs (fst (AddOrUpdate m k v)) \<and>
   (UniqueKeys (map Key (Items m)) \<longrightarrow>
      fst (Remove (fst (Remove m k)) k) = fst (Remove m k) \<and>
      Find (Run (Run m cs) cs) q = Find (Run m cs) q)"
proof (intro conjI impI)
  show "Pairs (fst (AddOrUpdate (fst (AddOrUpdate m k v)) k v)) = Pairs (fst (AddOrUpdate m k v))"
    by (simp add: Pairs_AddOrUpdate put_put)
next
  assume u: "UniqueKeys (map Key (Items m))"
  then show "fst (Remove (fst (Remove m k)) k) = fst (Remove m k)"
    by (simp add: Remove_absent Find_Remove_same)
next
  assume u: "UniqueKeys (map Key (Items m))"
  then have "UniqueKeys (map Key (Items (Run m cs)))"
    by (rule UniqueKeys_Run)
  then have "Find (Run (Run m cs) cs) q = MostRecent (Find (Run m cs) q) (rev cs) q"
    by (rule Find_Run)
  also have "\<dots> = MostRecent (MostRecent (Find m q) (rev cs) q) (rev cs) q"
    using u by (simp add: Find_Run)
  also have "\<dots> = MostRecent (Find m q) (rev cs) q"
    by (rule MostRecent_idem)
  also have "\<dots> = Find (Run m cs) q"
    using u by (simp add: Find_Run)
  finally show "Find (Run (Run m cs) cs) q = Find (Run m cs) q" .
qed

theorem replay_idempotent_witness:
  "UniqueKeys (map Key (Items (OneSlot (Some 1)))) \<and>
   Pairs (fst (AddOrUpdate (fst (AddOrUpdate (OneSlot (Some 1)) (SlotKey 1 0) (Score 9)))
                 (SlotKey 1 0) (Score 9))) =
     Pairs (fst (AddOrUpdate (OneSlot (Some 1)) (SlotKey 1 0) (Score 9))) \<and>
   fst (Remove (fst (Remove (OneSlot (Some 1)) (SlotKey 1 0))) (SlotKey 1 0)) =
     fst (Remove (OneSlot (Some 1)) (SlotKey 1 0)) \<and>
   Find (Run (Run (OneSlot (Some 1)) [CallRemove (SlotKey 1 0), CallAddOrUpdate (SlotKey 1 0) (Score 9)])
           [CallRemove (SlotKey 1 0), CallAddOrUpdate (SlotKey 1 0) (Score 9)]) (SlotKey 1 0) =
     Find (Run (OneSlot (Some 1)) [CallRemove (SlotKey 1 0), CallAddOrUpdate (SlotKey 1 0) (Score 9)])
       (SlotKey 1 0)"
proof -
  have u: "UniqueKeys (map Key (Items (OneSlot (Some 1))))"
    by (simp add: OneSlot_def)
  from u replay_idempotent [where m = "OneSlot (Some 1)" and k = "SlotKey 1 0" and v = "Score 9"
      and q = "SlotKey 1 0"
      and cs = "[CallRemove (SlotKey 1 0), CallAddOrUpdate (SlotKey 1 0) (Score 9)]"]
  show ?thesis by simp
qed

text \<open>
  The claim as it was written fails twice over. Run on the empty map, the batch leaves
  slot 1 before slot 2; run again, its removal takes slot 1 out and its addition puts
  it back behind slot 2, so the entries are no longer in the same order. And the second
  of two equal \<open>AddOrUpdate\<close> calls marks the entry dirty again, so the entry's
  \<open>ReplicationKey\<close> is 1 where one call leaves 0.
\<close>

theorem replay_changes_order_and_marks:
  "Pairs (Run (Run (EmptyMap None) ReplayedBatch) ReplayedBatch) \<noteq>
     Pairs (Run (EmptyMap None) ReplayedBatch) \<and>
   Items (fst (AddOrUpdate (fst (AddOrUpdate (EmptyMap None) (SlotKey 1 0) (Score 5)))
                 (SlotKey 1 0) (Score 5))) \<noteq>
     Items (fst (AddOrUpdate (EmptyMap None) (SlotKey 1 0) (Score 5)))"
proof
  have once: "Pairs (Run (EmptyMap None) ReplayedBatch) =
      [(SlotKey 1 0, Score 1), (SlotKey 2 0, Score 2)]"
    by (simp add: Run_def ReplayedBatch_def Pairs_AddOrUpdate Pairs_Remove Pairs_EmptyMap
        SlotKey_equals)
  have twice: "Pairs (Run (Run (EmptyMap None) ReplayedBatch) ReplayedBatch) =
      [(SlotKey 2 0, Score 2), (SlotKey 1 0, Score 1)]"
    by (simp add: Run_def ReplayedBatch_def Pairs_AddOrUpdate Pairs_Remove Pairs_EmptyMap
        SlotKey_equals)
  show "Pairs (Run (Run (EmptyMap None) ReplayedBatch) ReplayedBatch) \<noteq>
      Pairs (Run (EmptyMap None) ReplayedBatch)"
    by (simp add: once twice SlotKey_def)
  have "Items (fst (AddOrUpdate (OneSlot None) (SlotKey 1 0) (Score 5))) =
      [\<lparr>ReplicationID = 1, ReplicationKey = 1, MostRecentArrayReplicationKey = INDEX_NONE,
        Key = SlotKey 1 0, Value = Score 5\<rparr>]"
    by (simp add: AddOrUpdate_Items OneSlot_def SlotKey_equals MarkItemDirty_def INDEX_NONE_def)
  then show "Items (fst (AddOrUpdate (fst (AddOrUpdate (EmptyMap None) (SlotKey 1 0) (Score 5)))
                 (SlotKey 1 0) (Score 5))) \<noteq>
     Items (fst (AddOrUpdate (EmptyMap None) (SlotKey 1 0) (Score 5)))"
    by (simp add: OneSlot_built) (simp add: OneSlot_def)
qed

text \<open>
  C7. \<open>Remove\<close> of a key followed by \<open>AddOrUpdate\<close> of the key leaves the key present
  with the value added, whatever the map held; on a map with at most one entry per
  key, exactly one entry has the key afterwards.
\<close>

theorem Remove_then_AddOrUpdate:
  "Find (fst (AddOrUpdate (fst (Remove m k)) k v)) k = Some v \<and>
   (UniqueKeys (map Key (Items m)) \<longrightarrow>
      CountKey (fst (AddOrUpdate (fst (Remove m k)) k v)) k = 1)"
proof (intro conjI impI)
  show "Find (fst (AddOrUpdate (fst (Remove m k)) k v)) k = Some v"
    by (simp add: Find_lookup Pairs_AddOrUpdate lookup_put FRecordKey_equals_refl)
  assume "UniqueKeys (map Key (Items m))"
  then have "UniqueKeys (map fst (DelPair k (Pairs m)))"
    by (simp add: keys_Pairs UniqueKeys_del)
  then show "CountKey (fst (AddOrUpdate (fst (Remove m k)) k v)) k = 1"
    by (simp add: CountKey_Pairs Pairs_AddOrUpdate Pairs_Remove count_put)
qed

theorem Remove_then_AddOrUpdate_witness:
  "UniqueKeys (map Key (Items (OneSlot (Some 1)))) \<and>
   Find (fst (AddOrUpdate (fst (Remove (OneSlot (Some 1)) (SlotKey 1 0xCD))) (SlotKey 1 0xCD) (Score 9)))
     (SlotKey 1 0xCD) = Some (Score 9) \<and>
   CountKey (fst (AddOrUpdate (fst (Remove (OneSlot (Some 1)) (SlotKey 1 0xCD))) (SlotKey 1 0xCD) (Score 9)))
     (SlotKey 1 0xCD) = 1"
proof -
  have u: "UniqueKeys (map Key (Items (OneSlot (Some 1))))"
    by (simp add: OneSlot_def)
  from u Remove_then_AddOrUpdate [of "OneSlot (Some 1)" "SlotKey 1 0xCD" "Score 9"]
  show ?thesis by simp
qed



text \<open>
  C9. \<open>FNeoDataEntry::operator==\<close> compares the keys and nothing else. The lookups do
  the same: on two maps with the same keys in the same order, whatever their values,
  the search finds the same position, \<open>Find\<close> succeeds on both or on neither, and
  \<open>AddOrUpdate\<close> and \<open>Remove\<close> leave the same keys, whatever value is passed.
\<close>

theorem lookups_depend_on_keys_only:
  assumes "map Key (Items m) = map Key (Items m')"
  shows "FNeoDataEntry_equals (a\<lparr>Value := v\<rparr>) (b\<lparr>Value := v'\<rparr>) = FRecordKey_equals (Key a) (Key b) \<and>
         FindByPredicate (\<lambda>e. FRecordKey_equals (Key e) k) (Items m) =
           FindByPredicate (\<lambda>e. FRecordKey_equals (Key e) k) (Items m') \<and>
         (Find m k = None) = (Find m' k = None) \<and>
         map Key (Items (fst (AddOrUpdate m k v))) = map Key (Items (fst (AddOrUpdate m' k v'))) \<and>
         map Key (Items (fst (Remove m k))) = map Key (Items (fst (Remove m' k)))"
  using assms
  by (simp add: FNeoDataEntry_equals_def Find_None_iff FindByPredicate_keys keys_AddOrUpdate
      keys_Remove split: option.split)

theorem lookups_depend_on_keys_only_witness:
  "map Key (Items (OneSlot (Some 1))) = map Key (Items (Revalued (Score 9) (OneSlot (Some 1)))) \<and>
   Value (hd (Items (OneSlot (Some 1)))) \<noteq> Value (hd (Items (Revalued (Score 9) (OneSlot (Some 1))))) \<and>
   FNeoDataEntry_equals
     ((hd (Items (OneSlot (Some 1))))\<lparr>Value := Score 5\<rparr>)
     ((hd (Items (OneSlot (Some 1))))\<lparr>Value := Score 9\<rparr>) \<and>
   (Find (OneSlot (Some 1)) (SlotKey 1 0) = None) =
     (Find (Revalued (Score 9) (OneSlot (Some 1))) (SlotKey 1 0) = None)"
proof -
  have h: "map Key (Items (OneSlot (Some 1))) = map Key (Items (Revalued (Score 9) (OneSlot (Some 1))))"
    by (simp add: Revalued_def OneSlot_def)
  have d: "Value (hd (Items (OneSlot (Some 1)))) \<noteq> Value (hd (Items (Revalued (Score 9) (OneSlot (Some 1)))))"
    by (simp add: Revalued_def OneSlot_def Score_def)
  from h d lookups_depend_on_keys_only [OF h, where a = "hd (Items (OneSlot (Some 1)))"
      and b = "hd (Items (OneSlot (Some 1)))" and v = "Score 5" and v' = "Score 9"
      and k = "SlotKey 1 0"]
  show ?thesis by (simp add: FRecordKey_equals_refl)
qed

text \<open>
  C10. With a null \<open>Owner\<close>, \<open>AddOrUpdate\<close> and \<open>Remove\<close> leave the map they leave
  with the \<open>Owner\<close> set, dirty marks included, and broadcast nothing; the three
  replication hooks broadcast nothing either.
\<close>

theorem null_owner_mutates_silently:
  "AddOrUpdate (m\<lparr>Owner := None\<rparr>) k v = ((fst (AddOrUpdate m k v))\<lparr>Owner := None\<rparr>, []) \<and>
   Remove (m\<lparr>Owner := None\<rparr>) k = ((fst (Remove m k))\<lparr>Owner := None\<rparr>, []) \<and>
   PreReplicatedRemove e (m\<lparr>Owner := None\<rparr>) = [] \<and>
   PostReplicatedAdd e (m\<lparr>Owner := None\<rparr>) = [] \<and>
   PostReplicatedChange e (m\<lparr>Owner := None\<rparr>) = []"
proof (intro conjI)
  show "AddOrUpdate (m\<lparr>Owner := None\<rparr>) k v = ((fst (AddOrUpdate m k v))\<lparr>Owner := None\<rparr>, [])"
    by (simp add: AddOrUpdate_def Let_def case_prod_beta MarkItemDirty_Owner_update
        split: option.split)
  show "Remove (m\<lparr>Owner := None\<rparr>) k = ((fst (Remove m k))\<lparr>Owner := None\<rparr>, [])"
    by (simp add: Remove_eq MarkArrayDirty_def Let_def split: option.split)
qed (simp_all add: PreReplicatedRemove_def PostReplicatedAdd_def PostReplicatedChange_def)

theorem null_owner_mutates_silently_witness:
  "snd (AddOrUpdate ((OneSlot (Some 1))\<lparr>Owner := None\<rparr>) (SlotKey 1 0) (Score 9)) = [] \<and>
   snd (Remove ((OneSlot (Some 1))\<lparr>Owner := None\<rparr>) (SlotKey 1 0)) = [] \<and>
   Items (fst (Remove ((OneSlot (Some 1))\<lparr>Owner := None\<rparr>) (SlotKey 1 0))) =
     Items (fst (Remove (OneSlot (Some 1)) (SlotKey 1 0)))"
  using null_owner_mutates_silently [of "OneSlot (Some 1)" "SlotKey 1 0" "Score 9"]
  by simp

end
